theory Spec2Isabelle
  imports Main
begin

section \<open>JavaScript strings\<close>

text \<open>
  A JavaScript string is a sequence of UTF-16 code units; regular expressions without the
  \<open>u\<close> flag, \<open>trim\<close> and \<open>split\<close> all work on code units. \<open>js\<close> turns an ASCII
  literal into such a string.
\<close>

type_synonym jsstring = "nat list"

definition js :: "string \<Rightarrow> jsstring" where
  "js s = map of_char s"

text \<open>The class \<open>\s\<close> of a regular expression, which is also what \<open>trim\<close> removes:
  tab, LF, VT, FF, CR, space, NBSP, U+1680, U+2000-U+200A, U+2028, U+2029, U+202F,
  U+205F, U+3000 and U+FEFF.\<close>

definition is_space :: "nat \<Rightarrow> bool" where
  "is_space c \<longleftrightarrow>
     (9 \<le> c \<and> c \<le> 13) \<or> c = 32 \<or> c = 160 \<or> c = 5760 \<or> (8192 \<le> c \<and> c \<le> 8202) \<or>
     c = 8232 \<or> c = 8233 \<or> c = 8239 \<or> c = 8287 \<or> c = 12288 \<or> c = 65279"

definition is_lower :: "nat \<Rightarrow> bool" where
  "is_lower c \<longleftrightarrow> 97 \<le> c \<and> c \<le> 122"

definition is_upper :: "nat \<Rightarrow> bool" where
  "is_upper c \<longleftrightarrow> 65 \<le> c \<and> c \<le> 90"

definition is_digit :: "nat \<Rightarrow> bool" where
  "is_digit c \<longleftrightarrow> 48 \<le> c \<and> c \<le> 57"

definition is_letter :: "nat \<Rightarrow> bool" where
  "is_letter c \<longleftrightarrow> is_lower c \<or> is_upper c"

text \<open>\<open>String.prototype.trim\<close>.\<close>

definition trim :: "jsstring \<Rightarrow> jsstring" where
  "trim s = rev (dropWhile is_space (rev (dropWhile is_space s)))"

text \<open>\<open>s.split(sep)\<close> for a separator of one code unit, and \<open>lines.join(sep)\<close>.
  Splitting the empty string gives one empty piece.\<close>

fun split_on :: "nat \<Rightarrow> jsstring \<Rightarrow> jsstring list" where
  "split_on sep [] = [[]]"
| "split_on sep (c # cs) =
     (if c = sep then [] # split_on sep cs
      else (case split_on sep cs of
              [] \<Rightarrow> [[c]]
            | piece # pieces \<Rightarrow> (c # piece) # pieces))"

fun join_with :: "nat \<Rightarrow> jsstring list \<Rightarrow> jsstring" where
  "join_with sep [] = []"
| "join_with sep [piece] = piece"
| "join_with sep (piece # pieces) = piece @ sep # join_with sep pieces"

section \<open>Text normalizer: \<open>cleanOCRText\<close> and \<open>splitDocumentIntoLines\<close>\<close>

text \<open>The class \<open>[\u0000-\u0008\u000B-\u000C\u000E-\u001F\u007F-\u009F]\<close>.\<close>

definition is_control :: "nat \<Rightarrow> bool" where
  "is_control c \<longleftrightarrow>
     c \<le> 8 \<or> (11 \<le> c \<and> c \<le> 12) \<or> (14 \<le> c \<and> c \<le> 31) \<or> (127 \<le> c \<and> c \<le> 159)"

text \<open>\<open>s.replace(/[...]/g, r)\<close> for a class of single code units and a replacement of
  one code unit.\<close>

definition replace_class :: "(nat \<Rightarrow> bool) \<Rightarrow> nat \<Rightarrow> jsstring \<Rightarrow> jsstring" where
  "replace_class P r s = map (\<lambda>c. if P c then r else c) s"

text \<open>\<open>s.replace(/\s+/g, ' ')\<close>: every maximal run of white space becomes one space.\<close>

function collapse_spaces :: "jsstring \<Rightarrow> jsstring" where
  "collapse_spaces [] = []"
| "collapse_spaces (c # cs) =
     (if is_space c then 32 # collapse_spaces (dropWhile is_space cs)
      else c # collapse_spaces cs)"
  by pat_completeness auto
termination
  by (relation "measure length") (auto simp: less_Suc_eq_le length_dropWhile_le)

text \<open>\<open>s.replace(/([P])([Q])/g, '$1 $2')\<close>: the scan goes left to right and a match
  consumes both code units, so the search resumes after the second one.\<close>

fun insert_space_between :: "(nat \<Rightarrow> bool) \<Rightarrow> (nat \<Rightarrow> bool) \<Rightarrow> jsstring \<Rightarrow> jsstring" where
  "insert_space_between P Q (a # b # cs) =
     (if P a \<and> Q b then a # 32 # b # insert_space_between P Q cs
      else a # insert_space_between P Q (b # cs))"
| "insert_space_between P Q cs = cs"

text \<open>The chain of \<open>replace\<close> calls. In the source the two quote classes hold the ASCII
  apostrophe (39) and the ASCII double quote (34); the dash class holds U+2013 and
  U+2014.\<close>

definition replace_chain :: "jsstring \<Rightarrow> jsstring" where
  "replace_chain s =
     insert_space_between is_letter is_digit
       (insert_space_between is_digit is_letter
         (insert_space_between is_lower is_upper
           (collapse_spaces
             (replace_class (\<lambda>c. c = 8211 \<or> c = 8212) 45
               (replace_class (\<lambda>c. c = 34) 34
                 (replace_class (\<lambda>c. c = 39) 39
                   (filter (\<lambda>c. \<not> is_control c) s)))))))"

definition cleanOCRText :: "jsstring \<Rightarrow> jsstring" where
  "cleanOCRText s =
     join_with 10 (filter (\<lambda>line. length line > 0) (map trim (split_on 10 (replace_chain s))))"

record LineContext =
  line_number :: nat
  line_text :: jsstring

text \<open>\<open>text.split(/\r?\n/)\<close>: a separator is CR LF or a lone LF.\<close>

fun split_lines :: "jsstring \<Rightarrow> jsstring list" where
  "split_lines [] = [[]]"
| "split_lines (c # cs) =
     (if c = 10 then [] # split_lines cs
      else if c = 13 \<and> (case cs of [] \<Rightarrow> False | d # ds \<Rightarrow> d = 10) then [] # split_lines (tl cs)
      else (case split_lines cs of
              [] \<Rightarrow> [[c]]
            | piece # pieces \<Rightarrow> (c # piece) # pieces))"

definition splitDocumentIntoLines :: "jsstring \<Rightarrow> LineContext list" where
  "splitDocumentIntoLines s =
     filter (\<lambda>line. length (line_text line) > 0)
       (map (\<lambda>(index, line). \<lparr>line_number = index + 1, line_text = trim line\<rparr>)
            (enumerate 0 (split_lines s)))"

subsection \<open>The normal form of the normalizer's output\<close>

text \<open>White space other than the plain space, a pair of adjacent spaces, and the strings
  on which every replacement of the chain has nothing left to do.\<close>

definition other_space :: "nat \<Rightarrow> bool" where
  "other_space c \<longleftrightarrow> is_space c \<and> c \<noteq> 32"

definition double_space :: "nat \<Rightarrow> nat \<Rightarrow> bool" where
  "double_space a b \<longleftrightarrow> a = 32 \<and> b = 32"

definition normalized :: "jsstring \<Rightarrow> bool" where
  "normalized s \<longleftrightarrow>
     (\<forall>c \<in> set s. \<not> is_control c \<and> \<not> (c = 8211 \<or> c = 8212) \<and> \<not> other_space c) \<and>
     successively (\<lambda>a b. \<not> double_space a b) s \<and>
     successively (\<lambda>a b. \<not> (is_lower a \<and> is_upper b)) s \<and>
     successively (\<lambda>a b. \<not> (is_digit a \<and> is_letter b)) s \<and>
     successively (\<lambda>a b. \<not> (is_letter a \<and> is_digit b)) s"

text \<open>The three space-inserting replacements at the end of the chain.\<close>

definition insert_spaces :: "jsstring \<Rightarrow> jsstring" where
  "insert_spaces s =
     insert_space_between is_letter is_digit
       (insert_space_between is_digit is_letter
         (insert_space_between is_lower is_upper s))"

section \<open>Batched extraction client: \<open>fetchWithRetry\<close>\<close>

text \<open>
  One call of \<open>fetch\<close> either resolves to a response with an HTTP status or rejects
  (a network error). The environment is the answer the service gives to the
  \<open>n\<close>-th call (counted from 0).
\<close>

datatype fetch_outcome = Response nat | NetworkError

datatype fetch_error = HttpError nat | NetworkFailure | AllRetryAttemptsFailed

text \<open>\<open>response.ok\<close>: the status is in the range 200-299.\<close>

definition response_ok :: "nat \<Rightarrow> bool" where
  "response_ok status \<longleftrightarrow> 200 \<le> status \<and> status \<le> 299"

text \<open>\<open>const delays = [500, 1000, 2000]\<close>; \<open>delays[attempt]\<close> out of range is
  \<open>undefined\<close>, which \<open>setTimeout\<close> takes as 0.\<close>

definition delays :: "nat list" where
  "delays = [500, 1000, 2000]"

definition delay_at :: "nat \<Rightarrow> nat" where
  "delay_at attempt = (if attempt < length delays then delays ! attempt else 0)"

text \<open>What the body of the \<open>try\<close> block does in one iteration: return the response,
  throw, or fall through to the code after the \<open>try\<close>/\<open>catch\<close>.\<close>

datatype try_result = Return nat | Throw fetch_error | FallThrough

definition try_body :: "fetch_outcome \<Rightarrow> nat \<Rightarrow> nat \<Rightarrow> try_result" where
  "try_body outcome retries attempt =
     (case outcome of
        NetworkError \<Rightarrow> Throw NetworkFailure
      | Response status \<Rightarrow>
          if response_ok status then Return status
          else if 400 \<le> status \<and> status < 500 then Throw (HttpError status)
          else if attempt = retries - 1 then Throw (HttpError status)
          else FallThrough)"

text \<open>The \<open>catch\<close> clause encloses the whole body, so it also receives the error thrown
  for a 4xx status: it rethrows on the last attempt only and otherwise swallows the
  error. The result pairs the outcome with the backoff delays slept, oldest first.\<close>

function fetchWithRetry_loop ::
  "(nat \<Rightarrow> fetch_outcome) \<Rightarrow> nat \<Rightarrow> nat \<Rightarrow> nat list \<Rightarrow> (fetch_error + nat) \<times> nat list" where
  "fetchWithRetry_loop fetch retries attempt slept =
     (if attempt < retries then
        (case try_body (fetch attempt) retries attempt of
           Return status \<Rightarrow> (Inr status, slept)
         | Throw err \<Rightarrow>
             if attempt = retries - 1 then (Inl err, slept)
             else fetchWithRetry_loop fetch retries (Suc attempt)
                    (if attempt < retries - 1 then slept @ [delay_at attempt] else slept)
         | FallThrough \<Rightarrow>
             fetchWithRetry_loop fetch retries (Suc attempt)
               (if attempt < retries - 1 then slept @ [delay_at attempt] else slept))
      else (Inl AllRetryAttemptsFailed, slept))"
  by pat_completeness auto
termination
  by (relation "measure (\<lambda>(fetch, retries, attempt, slept). retries - attempt)") auto

text \<open>The default \<open>retries = 3\<close>, which the only caller uses.\<close>

definition fetchWithRetry :: "(nat \<Rightarrow> fetch_outcome) \<Rightarrow> (fetch_error + nat) \<times> nat list" where
  "fetchWithRetry fetch = fetchWithRetry_loop fetch 3 0 []"

section \<open>Event materializer: \<open>convertLineEventsToExtractedEvents\<close>\<close>

text \<open>
  One result of the extraction service (\<open>LineExtraction\<close>). An optional field is an
  \<open>option\<close>: \<open>None\<close> is the absent key. The field \<open>line_number\<close> is named
  \<open>result_line_number\<close> here, apart from the one of \<open>LineContext\<close>.
\<close>

record LineExtraction =
  result_line_number :: nat
  event :: jsstring
  date_text :: jsstring
  normalized_date :: "jsstring option"
  normalized_end_date :: "jsstring option"
  day_of_week :: "jsstring option"
  recurrence_pattern :: "jsstring option"
  is_range_with_day :: "bool option"

text \<open>
  The metadata bag of an extracted event, with every key that this code writes; \<open>None\<close>
  is an absent key or \<open>null\<close>. The fields carry the prefix \<open>md_\<close>.
\<close>

record Metadata =
  md_date_text :: "jsstring option"
  md_normalized_date :: "jsstring option"
  md_normalized_end_date :: "jsstring option"
  md_line_number :: "nat option"
  md_day_of_week :: "jsstring option"
  md_recurrence_pattern :: "jsstring option"
  md_is_range_with_day :: "bool option"
  md_is_expanded_from_range :: "bool option"
  md_original_range_start :: "jsstring option"
  md_original_range_end :: "jsstring option"

text \<open>The object literal \<open>{}\<close>.\<close>

definition empty_metadata :: Metadata where
  "empty_metadata =
     \<lparr>md_date_text = None, md_normalized_date = None, md_normalized_end_date = None,
      md_line_number = None, md_day_of_week = None, md_recurrence_pattern = None,
      md_is_range_with_day = None, md_is_expanded_from_range = None,
      md_original_range_start = None, md_original_range_end = None\<rparr>"

record ExtractedEvent =
  title :: jsstring
  description :: "jsstring option"
  event_date :: jsstring
  start_time :: "jsstring option"
  end_time :: "jsstring option"
  location :: "jsstring option"
  category :: jsstring
  priority :: jsstring
  confidence :: nat
  metadata :: "Metadata option"

text \<open>Truthiness of an optional string (absent, \<open>null\<close> and \<open>""\<close> are falsy) and of an
  optional boolean; \<open>a || b\<close> on strings; \<open>a || null\<close>.\<close>

definition truthy :: "jsstring option \<Rightarrow> bool" where
  "truthy v = (case v of None \<Rightarrow> False | Some s \<Rightarrow> s \<noteq> [])"

definition truthy_flag :: "bool option \<Rightarrow> bool" where
  "truthy_flag v = (case v of None \<Rightarrow> False | Some b \<Rightarrow> b)"

definition or_else :: "jsstring option \<Rightarrow> jsstring \<Rightarrow> jsstring" where
  "or_else v d = (case v of None \<Rightarrow> d | Some s \<Rightarrow> if s \<noteq> [] then s else d)"

definition or_null :: "jsstring option \<Rightarrow> jsstring option" where
  "or_null v = (if truthy v then v else None)"

text \<open>The condition of the first branch: a range with a day pattern.\<close>

definition is_deferred_range :: "LineExtraction \<Rightarrow> bool" where
  "is_deferred_range r \<longleftrightarrow>
     truthy_flag (is_range_with_day r) \<and> truthy (normalized_date r) \<and>
     truthy (normalized_end_date r) \<and> truthy (day_of_week r)"

text \<open>The event pushed for a range with a day pattern, stored unexpanded. Its
  \<open>event_date\<close> is \<open>event.normalized_date\<close>, which is a string in this branch.\<close>

definition range_event :: "LineExtraction \<Rightarrow> ExtractedEvent" where
  "range_event r =
     \<lparr>title = or_else (Some (event r)) (date_text r),
      description = Some (or_else (Some (event r)) (date_text r)),
      event_date = (case normalized_date r of None \<Rightarrow> [] | Some start \<Rightarrow> start),
      start_time = None, end_time = None, location = None,
      category = js ''other'', priority = js ''medium'', confidence = 85,
      metadata = Some
        \<lparr>md_date_text = Some (date_text r),
         md_normalized_date = normalized_date r,
         md_normalized_end_date = normalized_end_date r,
         md_line_number = Some (result_line_number r),
         md_day_of_week = day_of_week r,
         md_recurrence_pattern = or_null (recurrence_pattern r),
         md_is_range_with_day = Some True,
         md_is_expanded_from_range = Some False,
         md_original_range_start = None, md_original_range_end = None\<rparr>\<rparr>"

text \<open>The event pushed in the normal case and in the fallback on the raw date text.\<close>

definition single_event :: "LineExtraction \<Rightarrow> ExtractedEvent" where
  "single_event r =
     \<lparr>title = or_else (Some (event r)) (date_text r),
      description = Some (or_else (Some (event r)) (date_text r)),
      event_date = or_else (normalized_date r) (date_text r),
      start_time = None, end_time = None, location = None,
      category = js ''other'', priority = js ''medium'',
      confidence = (if truthy (normalized_date r) then 90 else 70),
      metadata = Some
        \<lparr>md_date_text = Some (date_text r),
         md_normalized_date = None,
         md_normalized_end_date = or_null (normalized_end_date r),
         md_line_number = Some (result_line_number r),
         md_day_of_week = or_null (day_of_week r),
         md_recurrence_pattern = or_null (recurrence_pattern r),
         md_is_range_with_day = Some False,
         md_is_expanded_from_range = Some False,
         md_original_range_start = None, md_original_range_end = None\<rparr>\<rparr>"

text \<open>The loop over the results, with the array \<open>allEvents\<close> as accumulator.\<close>

fun convert_loop :: "LineExtraction list \<Rightarrow> ExtractedEvent list \<Rightarrow> ExtractedEvent list" where
  "convert_loop [] allEvents = allEvents"
| "convert_loop (r # rest) allEvents =
     (if \<not> truthy (normalized_date r) \<and> date_text r = [] then convert_loop rest allEvents
      else if is_deferred_range r then convert_loop rest (allEvents @ [range_event r])
      else convert_loop rest (allEvents @ [single_event r]))"

definition convertLineEventsToExtractedEvents :: "LineExtraction list \<Rightarrow> ExtractedEvent list" where
  "convertLineEventsToExtractedEvents lineEvents = convert_loop lineEvents []"

section \<open>JavaScript dates\<close>

text \<open>
  A \<open>Date\<close> holds a time value: the milliseconds since 1970-01-01T00:00:00Z, or NaN
  (an invalid date), which is \<open>None\<close> here. The calendar is the proleptic Gregorian one;
  \<open>days_from_civil\<close> is the day number of a civil date (day 0 is 1970-01-01) and
  \<open>civil_from_days\<close> its inverse.
\<close>

definition ms_per_day :: int where
  "ms_per_day = 86400000"

definition days_from_civil :: "int \<Rightarrow> int \<Rightarrow> int \<Rightarrow> int" where
  "days_from_civil y m d =
     (let y' = (if m \<le> 2 then y - 1 else y);
          era = y' div 400;
          yoe = y' - era * 400;
          mp = (m + 9) mod 12;
          doy = (153 * mp + 2) div 5 + d - 1;
          doe = yoe * 365 + yoe div 4 - yoe div 100 + doy
      in era * 146097 + doe - 719468)"

definition civil_from_days :: "int \<Rightarrow> int \<times> int \<times> int" where
  "civil_from_days z =
     (let z' = z + 719468;
          era = z' div 146097;
          doe = z' - era * 146097;
          yoe = (doe - doe div 1460 + doe div 36524 - doe div 146096) div 365;
          doy = doe - (365 * yoe + yoe div 4 - yoe div 100);
          mp = (5 * doy + 2) div 153;
          d = doy - (153 * mp + 2) div 5 + 1;
          m = (if mp < 10 then mp + 3 else mp - 9);
          y = yoe + era * 400
      in (if m \<le> 2 then y + 1 else y, m, d))"

definition is_leap_year :: "int \<Rightarrow> bool" where
  "is_leap_year y \<longleftrightarrow> y mod 4 = 0 \<and> (y mod 100 \<noteq> 0 \<or> y mod 400 = 0)"

definition days_in_month :: "int \<Rightarrow> int \<Rightarrow> int" where
  "days_in_month y m =
     (if m = 2 then (if is_leap_year y then 29 else 28)
      else if m = 4 \<or> m = 6 \<or> m = 9 \<or> m = 11 then 30 else 31)"

text \<open>A string of decimal digits as a number; \<open>None\<close> when a code unit is not a digit.\<close>

fun parse_digits :: "jsstring \<Rightarrow> nat \<Rightarrow> nat option" where
  "parse_digits [] acc = Some acc"
| "parse_digits (c # cs) acc =
     (if is_digit c then parse_digits cs (10 * acc + (c - 48)) else None)"

text \<open>
  \<open>new Date(s)\<close> for a date-only string \<open>YYYY-MM-DD\<close>, the form that the extraction
  contract prescribes for \<open>normalized_date\<close> and \<open>normalized_end_date\<close>: ECMAScript
  takes it as midnight UTC of that day, and a month or day out of range makes the date
  invalid. Strings of any other shape are outside this model, which gives an invalid
  date for them.
\<close>

definition Date_parse :: "jsstring \<Rightarrow> int option" where
  "Date_parse s =
     (if length s = 10 \<and> s ! 4 = 45 \<and> s ! 7 = 45 then
        (case (parse_digits (take 4 s) 0, parse_digits (take 2 (drop 5 s)) 0,
               parse_digits (drop 8 s) 0) of
           (Some y, Some m, Some d) \<Rightarrow>
             if 1 \<le> m \<and> m \<le> 12 \<and> 1 \<le> d \<and> int d \<le> days_in_month (int y) (int m)
             then Some (days_from_civil (int y) (int m) (int d) * ms_per_day)
             else None
         | _ \<Rightarrow> None)
      else None)"

text \<open>The decimal digits of \<open>n\<close>, padded with zeros to the width \<open>w\<close>.\<close>

fun pad_number :: "nat \<Rightarrow> nat \<Rightarrow> jsstring" where
  "pad_number 0 n = []"
| "pad_number (Suc w) n = pad_number w (n div 10) @ [48 + n mod 10]"

text \<open>\<open>date.toISOString().split('T')[0]\<close>: the UTC calendar date of the time value. Years
  outside 0-9999 are written with a sign and six digits.\<close>

definition toISODate :: "int \<Rightarrow> jsstring" where
  "toISODate t =
     (case civil_from_days (t div ms_per_day) of
        (y, m, d) \<Rightarrow>
          (if 0 \<le> y \<and> y \<le> 9999 then pad_number 4 (nat y)
           else (if y < 0 then 45 else 43) # pad_number 6 (nat \<bar>y\<bar>))
          @ 45 # pad_number 2 (nat m) @ 45 # pad_number 2 (nat d))"

text \<open>
  \<open>getDay\<close>, \<open>getDate\<close> and \<open>setDate\<close> work in the local time of the host, unlike the
  parser and \<open>toISOString\<close> above. The host's zone is a fixed offset \<open>tz\<close>, in minutes
  east of UTC (\<open>-getTimezoneOffset()\<close>); daylight-saving changes are not modelled.
  \<open>getDay\<close> is the weekday of the local day, 0 for Sunday (1970-01-01 was a Thursday);
  \<open>date.setDate(date.getDate() + 1)\<close> moves to the same local time of the next local
  day, 24 hours later.
\<close>

definition getDay :: "int \<Rightarrow> int \<Rightarrow> nat" where
  "getDay tz t = nat (((t + tz * 60000) div ms_per_day + 4) mod 7)"

definition next_local_day :: "int \<Rightarrow> int" where
  "next_local_day t = t + ms_per_day"

section \<open>Recurrence expander: \<open>expandRangeWithDays\<close> and \<open>expandDateRangeWithDays\<close>\<close>

text \<open>
  \<open>toLowerCase\<close>, on the ASCII letters. Lower-casing any other code unit never yields a
  key of \<open>dayMap\<close>, so the tokens that the table recognises are the same.
\<close>

definition toLowerCase :: "jsstring \<Rightarrow> jsstring" where
  "toLowerCase s = map (\<lambda>c. if is_upper c then c + 32 else c) s"

text \<open>
  \<open>dayMap[d]\<close>. The table is an object literal, so besides its own keys the lookup
  finds the properties inherited from \<open>Object.prototype\<close>; after lower-casing only
  \<open>constructor\<close> and \<open>__proto__\<close> can be hit. Such a value is not \<open>undefined\<close> and is
  no number.
\<close>

datatype day_value = DayNumber nat | Inherited

definition dayMap :: "jsstring \<Rightarrow> day_value option" where
  "dayMap d =
     (if d = js ''sunday'' \<or> d = js ''sun'' then Some (DayNumber 0)
      else if d = js ''monday'' \<or> d = js ''mon'' then Some (DayNumber 1)
      else if d = js ''tuesday'' \<or> d = js ''tue'' \<or> d = js ''tues'' then Some (DayNumber 2)
      else if d = js ''wednesday'' \<or> d = js ''wed'' then Some (DayNumber 3)
      else if d = js ''thursday'' \<or> d = js ''thu'' \<or> d = js ''thur'' \<or> d = js ''thurs''
        then Some (DayNumber 4)
      else if d = js ''friday'' \<or> d = js ''fri'' then Some (DayNumber 5)
      else if d = js ''saturday'' \<or> d = js ''sat'' then Some (DayNumber 6)
      else if d = js ''constructor'' \<or> d = js ''__proto__'' then Some Inherited
      else None)"

text \<open>\<open>s.toLowerCase().split(',').map(d => d.trim()).map(d => dayMap[d])
  .filter(d => d !== undefined)\<close>.\<close>

definition parse_days :: "jsstring \<Rightarrow> day_value list" where
  "parse_days s = List.map_filter dayMap (map trim (split_on 44 (toLowerCase s)))"

text \<open>
  The \<open>while\<close> loop of both expanders: \<open>build\<close> makes the record pushed for a date.
  A comparison with an invalid date is false, so the loop is entered with valid dates
  only.
\<close>

function range_loop ::
  "int \<Rightarrow> day_value list \<Rightarrow> (jsstring \<Rightarrow> 'a) \<Rightarrow> int \<Rightarrow> int \<Rightarrow> 'a list \<Rightarrow> 'a list" where
  "range_loop tz daysOfWeek build currentDate endDate expandedEvents =
     (if currentDate \<le> endDate then
        range_loop tz daysOfWeek build (next_local_day currentDate) endDate
          (if DayNumber (getDay tz currentDate) \<in> set daysOfWeek
           then expandedEvents @ [build (toISODate currentDate)]
           else expandedEvents)
      else expandedEvents)"
  by pat_completeness auto
termination
  by (relation "measure (\<lambda>(tz, daysOfWeek, build, currentDate, endDate, expandedEvents).
        nat (endDate - currentDate + 1))")
    (auto simp: next_local_day_def ms_per_day_def)

definition expand_range ::
  "int \<Rightarrow> (jsstring \<Rightarrow> 'a) \<Rightarrow> jsstring \<Rightarrow> jsstring \<Rightarrow> jsstring \<Rightarrow> 'a list" where
  "expand_range tz build startDateStr endDateStr dayOfWeekStr =
     (let startDate = Date_parse startDateStr;
          endDate = Date_parse endDateStr;
          daysOfWeek = parse_days dayOfWeekStr
      in if length daysOfWeek = 0 then []
         else (case (startDate, endDate) of
                 (Some currentDate, Some endDate') \<Rightarrow>
                   range_loop tz daysOfWeek build currentDate endDate' []
               | _ \<Rightarrow> []))"

text \<open>\<open>expandRangeWithDays\<close> of the import library: the records carry the title and the
  description of the extracted event and the date.\<close>

record ExpandedDate =
  expanded_title :: jsstring
  expanded_description :: "jsstring option"
  expanded_event_date :: jsstring

definition expandRangeWithDays ::
  "int \<Rightarrow> 'e ExtractedEvent_scheme \<Rightarrow> jsstring \<Rightarrow> jsstring \<Rightarrow> jsstring \<Rightarrow> ExpandedDate list" where
  "expandRangeWithDays tz extractedEvent startDateStr endDateStr dayOfWeekStr =
     expand_range tz
       (\<lambda>eventDate. \<lparr>expanded_title = title extractedEvent,
                      expanded_description = description extractedEvent,
                      expanded_event_date = eventDate\<rparr>)
       startDateStr endDateStr dayOfWeekStr"

text \<open>\<open>expandDateRangeWithDays\<close> of the edge function (which nothing calls).\<close>

definition expandDateRangeWithDays :: "int \<Rightarrow> LineExtraction \<Rightarrow> ExtractedEvent list" where
  "expandDateRangeWithDays tz r =
     (if \<not> is_deferred_range r then []
      else expand_range tz
        (\<lambda>eventDate.
           \<lparr>title = or_else (Some (event r)) (date_text r),
            description = Some (or_else (Some (event r)) (date_text r)),
            event_date = eventDate,
            start_time = None, end_time = None, location = None,
            category = js ''other'', priority = js ''medium'', confidence = 85,
            metadata = Some
              \<lparr>md_date_text = Some (date_text r),
               md_normalized_date = None,
               md_normalized_end_date = None,
               md_line_number = Some (result_line_number r),
               md_day_of_week = day_of_week r,
               md_recurrence_pattern = or_null (recurrence_pattern r),
               md_is_range_with_day = None,
               md_is_expanded_from_range = Some True,
               md_original_range_start = normalized_date r,
               md_original_range_end = normalized_end_date r\<rparr>\<rparr>)
        (case normalized_date r of None \<Rightarrow> [] | Some s \<Rightarrow> s)
        (case normalized_end_date r of None \<Rightarrow> [] | Some s \<Rightarrow> s)
        (case day_of_week r of None \<Rightarrow> [] | Some s \<Rightarrow> s))"

section \<open>Import into the calendar: \<open>importEventToCalendar\<close>\<close>

text \<open>
  What the pipeline inserts into \<open>extracted_events\<close> is an extracted event with
  \<open>{document_id, user_id}\<close> spread into it; the table adds the key \<open>id\<close> (the field
  \<open>row_id\<close> here) and the flag \<open>is_imported\<close>, false by default. A row of
  \<open>calendar_events\<close> has the columns that the import writes; its fields carry the
  prefix \<open>cal_\<close>.
\<close>

record InsertedEvent = ExtractedEvent +
  document_id :: jsstring
  user_id :: jsstring

record ExtractedEventRow = InsertedEvent +
  row_id :: jsstring
  is_imported :: bool

record CalendarEvent =
  cal_user_id :: jsstring
  cal_title :: jsstring
  cal_description :: "jsstring option"
  cal_event_date :: jsstring
  cal_start_time :: "jsstring option"
  cal_end_time :: "jsstring option"
  cal_location :: "jsstring option"
  cal_category :: jsstring
  cal_priority :: jsstring
  cal_source :: jsstring
  cal_source_id :: jsstring
  cal_is_completed :: bool

text \<open>The database: the two tables, and the log of the write requests that succeeded,
  oldest first.\<close>

datatype db_write = InsertCalendarEvents "CalendarEvent list" | UpdateIsImported jsstring

record database =
  extracted_events :: "ExtractedEventRow list"
  calendar_events :: "CalendarEvent list"
  writes :: "db_write list"

text \<open>The host of a run: its time zone, and whether the database answers the select,
  the insert and the update of this run with an error.\<close>

record host =
  timezone_offset :: int
  select_fails :: bool
  insert_fails :: bool
  update_fails :: bool

datatype import_error =
    FailedToFetchExtractedEvent
  | FailedToImportExpandedEvents
  | FailedToImportEvent
  | FailedToMarkEventAsImported

text \<open>\<open>from('extracted_events').select('*').eq('id', eventId).single()\<close>: an error unless
  exactly one row matches.\<close>

definition select_single :: "host \<Rightarrow> database \<Rightarrow> jsstring \<Rightarrow> ExtractedEventRow option" where
  "select_single h db eventId =
     (if select_fails h then None
      else (case filter (\<lambda>row. row_id row = eventId) (extracted_events db) of
              [row] \<Rightarrow> Some row
            | _ \<Rightarrow> None))"

text \<open>\<open>from('calendar_events').insert(rows)\<close>: all rows or none.\<close>

definition insert_calendar_events ::
  "host \<Rightarrow> database \<Rightarrow> CalendarEvent list \<Rightarrow> database option" where
  "insert_calendar_events h db rows =
     (if insert_fails h then None
      else Some (db\<lparr>calendar_events := calendar_events db @ rows,
                    writes := writes db @ [InsertCalendarEvents rows]\<rparr>))"

definition markEventAsImported :: "host \<Rightarrow> database \<Rightarrow> jsstring \<Rightarrow> import_error + database" where
  "markEventAsImported h db eventId =
     (if update_fails h then Inl FailedToMarkEventAsImported
      else Inr (db\<lparr>extracted_events :=
                     map (\<lambda>row. if row_id row = eventId then row\<lparr>is_imported := True\<rparr> else row)
                       (extracted_events db),
                   writes := writes db @ [UpdateIsImported eventId]\<rparr>))"

text \<open>The condition of the expanding branch, on \<open>extractedEvent.metadata || {}\<close>.\<close>

definition needs_expansion :: "Metadata \<Rightarrow> bool" where
  "needs_expansion md \<longleftrightarrow>
     truthy_flag (md_is_range_with_day md) \<and> truthy (md_normalized_date md) \<and>
     truthy (md_normalized_end_date md) \<and> truthy (md_day_of_week md)"

definition metadata_of :: "'a ExtractedEvent_scheme \<Rightarrow> Metadata" where
  "metadata_of extractedEvent =
     (case metadata extractedEvent of None \<Rightarrow> empty_metadata | Some md \<Rightarrow> md)"

definition string_of :: "jsstring option \<Rightarrow> jsstring" where
  "string_of v = (case v of None \<Rightarrow> [] | Some s \<Rightarrow> s)"

text \<open>The row inserted for one expanded date, and the row of the single-event branch.\<close>

definition expanded_calendar_event ::
  "ExtractedEventRow \<Rightarrow> jsstring \<Rightarrow> ExpandedDate \<Rightarrow> CalendarEvent" where
  "expanded_calendar_event extractedEvent eventId e =
     \<lparr>cal_user_id = user_id extractedEvent,
      cal_title = expanded_title e,
      cal_description = expanded_description e,
      cal_event_date = expanded_event_date e,
      cal_start_time = start_time extractedEvent,
      cal_end_time = end_time extractedEvent,
      cal_location = location extractedEvent,
      cal_category = category extractedEvent,
      cal_priority = priority extractedEvent,
      cal_source = js ''extracted'',
      cal_source_id = eventId,
      cal_is_completed = False\<rparr>"

definition single_calendar_event :: "ExtractedEventRow \<Rightarrow> jsstring \<Rightarrow> CalendarEvent" where
  "single_calendar_event extractedEvent eventId =
     \<lparr>cal_user_id = user_id extractedEvent,
      cal_title = title extractedEvent,
      cal_description = description extractedEvent,
      cal_event_date = event_date extractedEvent,
      cal_start_time = start_time extractedEvent,
      cal_end_time = end_time extractedEvent,
      cal_location = location extractedEvent,
      cal_category = category extractedEvent,
      cal_priority = priority extractedEvent,
      cal_source = js ''extracted'',
      cal_source_id = eventId,
      cal_is_completed = False\<rparr>"

text \<open>The value that the import returns: the inserted rows of the expanding branch, or
  the one row of the single-event branch.\<close>

datatype import_result = ExpandedImport "CalendarEvent list" | SingleImport CalendarEvent

definition importEventToCalendar ::
  "host \<Rightarrow> database \<Rightarrow> jsstring \<Rightarrow> (import_error + import_result) \<times> database" where
  "importEventToCalendar h db eventId =
     (case select_single h db eventId of
        None \<Rightarrow> (Inl FailedToFetchExtractedEvent, db)
      | Some extractedEvent \<Rightarrow>
          (let md = metadata_of extractedEvent
           in if needs_expansion md then
                (let expandedEvents =
                       expandRangeWithDays (timezone_offset h) extractedEvent
                         (string_of (md_normalized_date md))
                         (string_of (md_normalized_end_date md))
                         (string_of (md_day_of_week md));
                     eventsToInsert =
                       map (expanded_calendar_event extractedEvent eventId) expandedEvents
                 in case insert_calendar_events h db eventsToInsert of
                      None \<Rightarrow> (Inl FailedToImportExpandedEvents, db)
                    | Some db' \<Rightarrow>
                        (case markEventAsImported h db' eventId of
                           Inl err \<Rightarrow> (Inl err, db')
                         | Inr db'' \<Rightarrow> (Inr (ExpandedImport eventsToInsert), db'')))
              else
                (case insert_calendar_events h db [single_calendar_event extractedEvent eventId] of
                   None \<Rightarrow> (Inl FailedToImportEvent, db)
                 | Some db' \<Rightarrow>
                     (case markEventAsImported h db' eventId of
                        Inl err \<Rightarrow> (Inl err, db')
                      | Inr db'' \<Rightarrow>
                          (Inr (SingleImport (single_calendar_event extractedEvent eventId)),
                           db'')))))"

subsection \<open>The deferred-expansion round trip\<close>

text \<open>
  The scenario of the round trip: the extraction result for a line such as
  "Every Monday from Nov 3 to Nov 17: Team Meeting", the row that the table holds for an
  event of the materializer, the staging table after that result was materialized and
  stored, and a host in the zone \<open>tz\<close> whose database answers every request.
\<close>

definition monday_range_result :: LineExtraction where
  "monday_range_result =
     \<lparr>result_line_number = 1, event = js ''Team Meeting'', date_text = js ''Nov 3 to Nov 17'',
      normalized_date = Some (js ''2025-11-03''),
      normalized_end_date = Some (js ''2025-11-17''),
      day_of_week = Some (js ''Monday''), recurrence_pattern = Some (js ''weekly''),
      is_range_with_day = Some True\<rparr>"

definition stored_row ::
  "jsstring \<Rightarrow> jsstring \<Rightarrow> jsstring \<Rightarrow> ExtractedEvent \<Rightarrow> ExtractedEventRow" where
  "stored_row eventId documentId userId e =
     \<lparr>title = title e, description = description e, event_date = event_date e,
      start_time = start_time e, end_time = end_time e, location = location e,
      category = category e, priority = priority e, confidence = confidence e,
      metadata = metadata e, document_id = documentId, user_id = userId,
      row_id = eventId, is_imported = False\<rparr>"

definition staged_db :: database where
  "staged_db =
     \<lparr>extracted_events =
        map (stored_row (js ''event-1'') (js ''doc-1'') (js ''user-1''))
          (convertLineEventsToExtractedEvents [monday_range_result]),
      calendar_events = [], writes = []\<rparr>"

definition host_at :: "int \<Rightarrow> host" where
  "host_at tz =
     \<lparr>timezone_offset = tz, select_fails = False, insert_fails = False, update_fails = False\<rparr>"

section \<open>Extraction driver: \<open>extractEventsFromLines\<close>\<close>

text \<open>
  \<open>callOpenAIForLineBatch\<close> talks to the completion service; the driver sees only whether
  the call for a batch resolves to a list of results or rejects. The host of a run gives
  that outcome for the \<open>i\<close>-th batch, and says whether the database rejects the insert
  of the rows of the \<open>i\<close>-th batch. An empty batch resolves to no result without a
  request.
\<close>

datatype batch_failure = OpenAIError

record pipeline_host =
  call_outcome :: "nat \<Rightarrow> LineContext list \<Rightarrow> batch_failure + LineExtraction list"
  insert_rejected :: "nat \<Rightarrow> bool"

definition callOpenAIForLineBatch ::
  "pipeline_host \<Rightarrow> nat \<Rightarrow> LineContext list \<Rightarrow> batch_failure + LineExtraction list" where
  "callOpenAIForLineBatch h i batch = (if length batch = 0 then Inr [] else call_outcome h i batch)"

definition BATCH_SIZE :: nat where
  "BATCH_SIZE = 10"

text \<open>\<open>for (let i = 0; i < lines.length; i += BATCH_SIZE)
  batches.push(lines.slice(i, i + BATCH_SIZE))\<close>.\<close>

function slice_batches :: "LineContext list \<Rightarrow> nat \<Rightarrow> LineContext list list" where
  "slice_batches lines i =
     (if i < length lines then take BATCH_SIZE (drop i lines) # slice_batches lines (i + BATCH_SIZE)
      else [])"
  by pat_completeness auto
termination
  by (relation "measure (\<lambda>(lines, i). length lines - i)") (auto simp: BATCH_SIZE_def)

text \<open>
  What a run does, in order: the call for a batch, the failure of a call (caught and
  logged), the rows of a batch stored in \<open>extracted_events\<close>, an insert that the database
  rejected (logged), and a delay in milliseconds.
\<close>

datatype run_event =
    BatchCall nat "LineContext list"
  | BatchFailed nat
  | Persisted "InsertedEvent list"
  | PersistRejected nat
  | Delay nat

text \<open>The state of a run: the array \<open>allEvents\<close>, the rows of \<open>extracted_events\<close> and what
  happened so far.\<close>

record run_state =
  allEvents :: "LineExtraction list"
  stored_events :: "InsertedEvent list"
  timeline :: "run_event list"

definition with_owner :: "jsstring \<Rightarrow> jsstring \<Rightarrow> ExtractedEvent \<Rightarrow> InsertedEvent" where
  "with_owner documentId userId e =
     \<lparr>title = title e, description = description e, event_date = event_date e,
      start_time = start_time e, end_time = end_time e, location = location e,
      category = category e, priority = priority e, confidence = confidence e,
      metadata = metadata e, document_id = documentId, user_id = userId\<rparr>"

text \<open>The body of the loop over the batches, up to the end of the \<open>try\<close>/\<open>catch\<close>.\<close>

definition process_batch ::
  "pipeline_host \<Rightarrow> jsstring \<Rightarrow> jsstring \<Rightarrow> nat \<Rightarrow> LineContext list \<Rightarrow> run_state \<Rightarrow> run_state" where
  "process_batch h documentId userId i batch st =
     (let called = st\<lparr>timeline := timeline st @ [BatchCall i batch]\<rparr>
      in case callOpenAIForLineBatch h i batch of
           Inl err \<Rightarrow> called\<lparr>timeline := timeline called @ [BatchFailed i]\<rparr>
         | Inr batchEvents \<Rightarrow>
             (let pushed = called\<lparr>allEvents := allEvents called @ batchEvents\<rparr>
              in if length batchEvents > 0 then
                   (let eventsToInsert =
                          map (with_owner documentId userId)
                            (convertLineEventsToExtractedEvents batchEvents)
                    in if insert_rejected h i
                       then pushed\<lparr>timeline := timeline pushed @ [PersistRejected i]\<rparr>
                       else pushed\<lparr>stored_events := stored_events pushed @ eventsToInsert,
                                   timeline := timeline pushed @ [Persisted eventsToInsert]\<rparr>)
                 else pushed))"

text \<open>\<open>for (let i = 0; i < batches.length; i++)\<close>, with the delay of 400 ms after every
  batch but the last.\<close>

function batch_loop ::
  "pipeline_host \<Rightarrow> jsstring \<Rightarrow> jsstring \<Rightarrow> LineContext list list \<Rightarrow> nat \<Rightarrow> run_state \<Rightarrow> run_state" where
  "batch_loop h documentId userId batches i st =
     (if i < length batches then
        (let processed = process_batch h documentId userId i (batches ! i) st;
             delayed = (if i < length batches - 1
                        then processed\<lparr>timeline := timeline processed @ [Delay 400]\<rparr>
                        else processed)
         in batch_loop h documentId userId batches (i + 1) delayed)
      else st)"
  by pat_completeness auto
termination
  by (relation "measure (\<lambda>(h, documentId, userId, batches, i, st). length batches - i)") auto

text \<open>The run starts with the rows that \<open>extracted_events\<close> already holds; the function
  returns \<open>allEvents\<close> of the final state.\<close>

definition extractEventsFromLines ::
  "pipeline_host \<Rightarrow> LineContext list \<Rightarrow> jsstring \<Rightarrow> jsstring \<Rightarrow> InsertedEvent list \<Rightarrow> run_state" where
  "extractEventsFromLines h lines documentId userId stored =
     batch_loop h documentId userId (slice_batches lines 0) 0
       \<lparr>allEvents = [], stored_events = stored, timeline = []\<rparr>"

text \<open>What one batch does on its own: the loop body run from the empty state.\<close>

definition batch_alone ::
  "pipeline_host \<Rightarrow> jsstring \<Rightarrow> jsstring \<Rightarrow> nat \<Rightarrow> LineContext list \<Rightarrow> run_state" where
  "batch_alone h documentId userId i batch =
     process_batch h documentId userId i batch \<lparr>allEvents = [], stored_events = [], timeline = []\<rparr>"

section \<open>Properties of the text normalizer\<close>

lemmas char_class_defs =
  is_control_def is_space_def is_letter_def is_lower_def is_upper_def is_digit_def

text \<open>
  Claim C7. The claim says that a text with \<open>k\<close> non-blank lines yields \<open>k\<close> line records.
  \<open>cleanOCRText\<close> replaces every run of white space by one space, and a line feed is
  white space, so the text that reaches \<open>splitDocumentIntoLines\<close> has no line feed any
  more: a text of two non-blank lines yields one record holding both.
\<close>

theorem normalize_then_split_two_lines:
  "splitDocumentIntoLines (cleanOCRText (js ''Nov 3 Exam'' @ [10] @ js ''Nov 4 Quiz'')) =
     [\<lparr>line_number = 1, line_text = js ''Nov 3 Exam Nov 4 Quiz''\<rparr>]"
  by (simp add: js_def splitDocumentIntoLines_def cleanOCRText_def trim_def replace_chain_def
      replace_class_def char_class_defs)

text \<open>Without the normalizer in front, the same text splits into its two lines.\<close>

lemma split_two_lines:
  "splitDocumentIntoLines (js ''Nov 3 Exam'' @ [10] @ js ''Nov 4 Quiz'') =
     [\<lparr>line_number = 1, line_text = js ''Nov 3 Exam''\<rparr>,
      \<lparr>line_number = 2, line_text = js ''Nov 4 Quiz''\<rparr>]"
  by (simp add: js_def splitDocumentIntoLines_def trim_def char_class_defs)

subsection \<open>Character classes\<close>

lemma space_32_facts:
  "is_space 32" "\<not> other_space 32" "\<not> is_control 32" "\<not> is_lower 32" "\<not> is_upper 32"
  "\<not> is_digit 32" "\<not> is_letter 32" "other_space 10"
  by (simp_all add: char_class_defs other_space_def)

lemma hyphen_facts: "\<not> is_control 45" "\<not> other_space 45"
  by (simp_all add: char_class_defs other_space_def)

lemma class_disjoint:
  "is_upper b \<Longrightarrow> \<not> is_lower b" "is_letter b \<Longrightarrow> \<not> is_digit b" "is_digit b \<Longrightarrow> \<not> is_letter b"
  by (auto simp: char_class_defs)

lemma not_space_iff: "\<not> is_space c \<longleftrightarrow> \<not> other_space c \<and> c \<noteq> 32"
  using space_32_facts(1) by (auto simp: other_space_def)

subsection \<open>Inserting a space between two classes\<close>

lemma insert_space_between_Nil_iff [simp]: "insert_space_between P Q xs = [] \<longleftrightarrow> xs = []"
  by (induction P Q xs rule: insert_space_between.induct) auto

lemma hd_insert_space_between [simp]: "hd (insert_space_between P Q xs) = hd xs"
  by (induction P Q xs rule: insert_space_between.induct) auto

lemma set_insert_space_between: "set (insert_space_between P Q xs) \<subseteq> insert 32 (set xs)"
  by (induction P Q xs rule: insert_space_between.induct) auto

lemma successively_insert_space_between:
  "successively S xs \<Longrightarrow> (\<And>a. P a \<Longrightarrow> S a 32) \<Longrightarrow> (\<And>b. Q b \<Longrightarrow> S 32 b) \<Longrightarrow>
     successively S (insert_space_between P Q xs)"
proof (induction P Q xs rule: insert_space_between.induct)
  case (1 P Q a b cs)
  then show ?case
    by (auto simp: successively_Cons)
qed auto

lemma insert_space_between_separates:
  "(\<And>b. Q b \<Longrightarrow> \<not> P b) \<Longrightarrow> \<not> Q 32 \<Longrightarrow> \<not> P 32 \<Longrightarrow>
     successively (\<lambda>a b. \<not> (P a \<and> Q b)) (insert_space_between P Q xs)"
proof (induction P Q xs rule: insert_space_between.induct)
  case (1 P Q a b cs)
  then show ?case
    by (auto simp: successively_Cons)
qed auto

lemma insert_space_between_id:
  "successively (\<lambda>a b. \<not> (P a \<and> Q b)) xs \<Longrightarrow> insert_space_between P Q xs = xs"
  by (induction P Q xs rule: insert_space_between.induct) auto

subsection \<open>Collapsing white space\<close>

lemma collapse_spaces_Nil_iff [simp]: "collapse_spaces xs = [] \<longleftrightarrow> xs = []"
  by (cases xs) auto

lemma hd_collapse_spaces: "xs \<noteq> [] \<Longrightarrow> \<not> is_space (hd xs) \<Longrightarrow> hd (collapse_spaces xs) = hd xs"
  by (cases xs) auto

lemma set_collapse_spaces:
  "c \<in> set (collapse_spaces xs) \<Longrightarrow> c = 32 \<or> (c \<in> set xs \<and> \<not> is_space c)"
proof (induction xs rule: collapse_spaces.induct)
  case 1
  then show ?case by simp
next
  case (2 d ds)
  then show ?case
    by (auto split: if_splits dest: set_dropWhileD)
qed

lemma successively_tl: "successively S (c # cs) \<Longrightarrow> successively S cs"
  by (cases cs) simp_all

lemma successively_collapse_spaces:
  "successively (\<lambda>a b. \<not> double_space a b) (collapse_spaces xs)"
proof (induction xs rule: collapse_spaces.induct)
  case 1
  then show ?case by simp
next
  case (2 c cs)
  show ?case
  proof (cases "is_space c")
    case True
    let ?r = "dropWhile is_space cs"
    have ih: "successively (\<lambda>a b. \<not> double_space a b) (collapse_spaces ?r)"
      using 2(1) [OF True] .
    have "?r \<noteq> [] \<Longrightarrow> hd (collapse_spaces ?r) \<noteq> 32"
    proof -
      assume ne: "?r \<noteq> []"
      then have "\<not> is_space (hd ?r)" by (rule hd_dropWhile)
      moreover from this ne have "hd (collapse_spaces ?r) = hd ?r" by (simp add: hd_collapse_spaces)
      ultimately show ?thesis using space_32_facts(1) by metis
    qed
    then have "successively (\<lambda>a b. \<not> double_space a b) (32 # collapse_spaces ?r)"
      using ih by (cases "?r = []") (auto simp: successively_Cons double_space_def)
    with True show ?thesis by simp
  next
    case False
    have ih: "successively (\<lambda>a b. \<not> double_space a b) (collapse_spaces cs)"
      using 2(2) [OF False] .
    from False have "c \<noteq> 32" using space_32_facts(1) by metis
    then have "successively (\<lambda>a b. \<not> double_space a b) (c # collapse_spaces cs)"
      using ih by (simp add: successively_Cons double_space_def)
    with False show ?thesis by simp
  qed
qed

lemma collapse_spaces_id:
  "\<forall>c \<in> set xs. \<not> other_space c \<Longrightarrow> successively (\<lambda>a b. \<not> double_space a b) xs
     \<Longrightarrow> collapse_spaces xs = xs"
proof (induction xs rule: collapse_spaces.induct)
  case 1
  then show ?case by simp
next
  case (2 c cs)
  have tl_ok: "successively (\<lambda>a b. \<not> double_space a b) cs"
    using 2(4) by (rule successively_tl)
  have set_ok: "\<forall>c \<in> set cs. \<not> other_space c"
    using 2(3) by simp
  show ?case
  proof (cases "is_space c")
    case True
    have "\<not> other_space c" using 2(3) by simp
    with True have c: "c = 32" by (simp add: other_space_def)
    have dw: "dropWhile is_space cs = cs"
    proof (cases cs)
      case Nil
      then show ?thesis by simp
    next
      case (Cons d ds)
      with 2(4) c have "d \<noteq> 32" by (simp add: double_space_def)
      moreover have "\<not> other_space d" using Cons set_ok by simp
      ultimately have "\<not> is_space d" by (simp add: other_space_def)
      with Cons show ?thesis by simp
    qed
    have "collapse_spaces (dropWhile is_space cs) = dropWhile is_space cs"
      unfolding dw using set_ok tl_ok by (rule 2(1) [OF True, unfolded dw])
    then have "collapse_spaces cs = cs" by (simp only: dw)
    then show ?thesis using True dw by (simp only: collapse_spaces.simps if_True c)
  next
    case False
    have "collapse_spaces cs = cs"
      by (rule 2(2) [OF False set_ok tl_ok])
    then show ?thesis using False by (simp only: collapse_spaces.simps if_False)
  qed
qed

subsection \<open>Trimming\<close>

lemma set_trim: "set (trim s) \<subseteq> set s"
  unfolding trim_def by (auto dest!: set_dropWhileD)

lemma successively_dropWhile: "successively S xs \<Longrightarrow> successively S (dropWhile P xs)"
proof -
  assume "successively S xs"
  then have "successively S (takeWhile P xs @ dropWhile P xs)" by simp
  then show ?thesis unfolding successively_append_iff by simp
qed

lemma successively_trim: "successively S s \<Longrightarrow> successively S (trim s)"
  unfolding trim_def
  by (simp add: successively_dropWhile)

lemma trim_fixed: "s = [] \<or> (\<not> is_space (hd s) \<and> \<not> is_space (last s)) \<Longrightarrow> trim s = s"
proof (cases "s = []")
  case True
  then show ?thesis by (simp add: trim_def)
next
  case False
  assume "s = [] \<or> (\<not> is_space (hd s) \<and> \<not> is_space (last s))"
  with False have h: "\<not> is_space (hd s)" and l: "\<not> is_space (last s)" by auto
  from h False have "dropWhile is_space s = s" by (cases s) auto
  moreover from l False have "dropWhile is_space (rev s) = rev s"
    by (cases "rev s") (auto simp: hd_rev [symmetric])
  ultimately show ?thesis by (simp add: trim_def)
qed

lemma trim_ends: "trim y = [] \<or> (\<not> is_space (hd (trim y)) \<and> \<not> is_space (last (trim y)))"
proof (cases "trim y = []")
  case True
  then show ?thesis by simp
next
  case False
  let ?u = "dropWhile is_space y"
  let ?v = "dropWhile is_space (rev ?u)"
  have t: "trim y = rev ?v" by (simp add: trim_def)
  with False have v: "?v \<noteq> []" by simp
  have u: "?u \<noteq> []"
  proof
    assume "?u = []"
    then have "?v = []" by (simp only: rev.simps dropWhile.simps)
    with v show False by contradiction
  qed
  have "\<not> is_space (hd ?v)" using v by (rule hd_dropWhile)
  then have l: "\<not> is_space (last (trim y))" using v t by (simp add: last_rev)
  have "rev ?u = takeWhile is_space (rev ?u) @ ?v" by simp
  then have "last (rev ?u) = last (takeWhile is_space (rev ?u) @ ?v)" by simp
  also have "\<dots> = last ?v" using v by (rule last_appendR)
  finally have "last ?v = hd ?u" using u by (simp add: last_rev)
  moreover have "\<not> is_space (hd ?u)" using u by (rule hd_dropWhile)
  ultimately have "\<not> is_space (hd (trim y))" using t v by (simp add: hd_rev)
  with l show ?thesis by simp
qed

lemma trim_trim: "trim (trim y) = trim y"
  using trim_ends by (rule trim_fixed)

subsection \<open>Splitting and joining\<close>

lemma split_on_absent: "sep \<notin> set s \<Longrightarrow> split_on sep s = [s]"
  by (induction s) auto


lemma cleanOCRText_trim:
  assumes "10 \<notin> set (replace_chain s)"
  shows "cleanOCRText s = trim (replace_chain s)"
  using assms by (simp add: cleanOCRText_def split_on_absent)

subsection \<open>The chain of replacements\<close>

lemma replace_class_same: "(\<And>c. P c \<Longrightarrow> c = r) \<Longrightarrow> replace_class P r s = s"
  unfolding replace_class_def by (induction s) auto

lemma replace_class_id: "\<forall>c \<in> set s. \<not> P c \<Longrightarrow> replace_class P r s = s"
  unfolding replace_class_def by (induction s) auto

lemma set_replace_class:
  "c \<in> set (replace_class P r s) \<Longrightarrow> c = r \<or> (c \<in> set s \<and> \<not> P c)"
  unfolding replace_class_def by auto

subsection \<open>The normalized form\<close>

lemma chain_chars:
  assumes "c \<in> set (collapse_spaces (replace_class (\<lambda>c. c = 8211 \<or> c = 8212) 45
             (replace_class (\<lambda>c. c = 34) 34 (replace_class (\<lambda>c. c = 39) 39
               (filter (\<lambda>c. \<not> is_control c) s)))))"
  shows "\<not> is_control c \<and> \<not> (c = 8211 \<or> c = 8212) \<and> \<not> other_space c"
proof -
  let ?s1 = "filter (\<lambda>c. \<not> is_control c) s"
  let ?s4 = "replace_class (\<lambda>c. c = 8211 \<or> c = 8212) 45 ?s1"
  have q: "replace_class (\<lambda>c. c = 34) 34 (replace_class (\<lambda>c. c = 39) 39 ?s1) = ?s1"
    by (simp add: replace_class_same)
  from assms have c5: "c \<in> set (collapse_spaces ?s4)" by (simp only: q)
  show ?thesis
  proof (cases "c = 32")
    case True
    then show ?thesis using space_32_facts by simp
  next
    case False
    with set_collapse_spaces [OF c5] have c4: "c \<in> set ?s4" and ns: "\<not> is_space c" by auto
    from ns have os: "\<not> other_space c" by (simp add: other_space_def)
    from set_replace_class [OF c4] show ?thesis
    proof
      assume "c = 45"
      then show ?thesis using hyphen_facts by simp
    next
      assume "c \<in> set ?s1 \<and> \<not> (c = 8211 \<or> c = 8212)"
      then show ?thesis using os by simp
    qed
  qed
qed

lemma set_insert_spaces: "set (insert_spaces s) \<subseteq> insert 32 (set s)"
  unfolding insert_spaces_def
  using set_insert_space_between [of is_letter is_digit "insert_space_between is_digit is_letter
         (insert_space_between is_lower is_upper s)"]
      set_insert_space_between [of is_digit is_letter "insert_space_between is_lower is_upper s"]
      set_insert_space_between [of is_lower is_upper s]
  by blast

lemma no_double_space_insert:
  "successively (\<lambda>a b. \<not> double_space a b) s \<Longrightarrow> (\<And>a. P a \<Longrightarrow> a \<noteq> 32) \<Longrightarrow>
     (\<And>b. Q b \<Longrightarrow> b \<noteq> 32) \<Longrightarrow>
     successively (\<lambda>a b. \<not> double_space a b) (insert_space_between P Q s)"
  by (erule successively_insert_space_between) (simp_all add: double_space_def)

lemma no_double_space_insert_spaces:
  assumes "successively (\<lambda>a b. \<not> double_space a b) s"
  shows "successively (\<lambda>a b. \<not> double_space a b) (insert_spaces s)"
proof -
  have l: "\<And>a. is_lower a \<Longrightarrow> a \<noteq> 32" and u: "\<And>a. is_upper a \<Longrightarrow> a \<noteq> 32"
    and d: "\<And>a. is_digit a \<Longrightarrow> a \<noteq> 32" and t: "\<And>a. is_letter a \<Longrightarrow> a \<noteq> 32"
    using space_32_facts by blast+
  show ?thesis
    unfolding insert_spaces_def
    by (intro no_double_space_insert assms l u d t)
qed

lemma keeps_separated:
  "successively (\<lambda>a b. \<not> (P a \<and> Q b)) s \<Longrightarrow> \<not> P 32 \<Longrightarrow> \<not> Q 32 \<Longrightarrow>
     successively (\<lambda>a b. \<not> (P a \<and> Q b)) (insert_space_between P' Q' s)"
  by (erule successively_insert_space_between) simp_all

lemma separated_insert_spaces:
  "successively (\<lambda>a b. \<not> (is_lower a \<and> is_upper b)) (insert_spaces s)"
  "successively (\<lambda>a b. \<not> (is_digit a \<and> is_letter b)) (insert_spaces s)"
  "successively (\<lambda>a b. \<not> (is_letter a \<and> is_digit b)) (insert_spaces s)"
proof -
  let ?s6 = "insert_space_between is_lower is_upper s"
  let ?s7 = "insert_space_between is_digit is_letter ?s6"
  have lu6: "successively (\<lambda>a b. \<not> (is_lower a \<and> is_upper b)) ?s6"
    by (rule insert_space_between_separates) (simp_all add: class_disjoint space_32_facts)
  have lu7: "successively (\<lambda>a b. \<not> (is_lower a \<and> is_upper b)) ?s7"
    using lu6 space_32_facts(4,5) by (rule keeps_separated)
  show "successively (\<lambda>a b. \<not> (is_lower a \<and> is_upper b)) (insert_spaces s)"
    unfolding insert_spaces_def using lu7 space_32_facts(4,5) by (rule keeps_separated)
  have dl7: "successively (\<lambda>a b. \<not> (is_digit a \<and> is_letter b)) ?s7"
    by (rule insert_space_between_separates) (simp_all add: class_disjoint space_32_facts)
  show "successively (\<lambda>a b. \<not> (is_digit a \<and> is_letter b)) (insert_spaces s)"
    unfolding insert_spaces_def using dl7 space_32_facts(6,7) by (rule keeps_separated)
  show "successively (\<lambda>a b. \<not> (is_letter a \<and> is_digit b)) (insert_spaces s)"
    unfolding insert_spaces_def
    by (rule insert_space_between_separates) (simp_all add: class_disjoint space_32_facts)
qed

lemma replace_chain_eq:
  "replace_chain s = insert_spaces (collapse_spaces (replace_class (\<lambda>c. c = 8211 \<or> c = 8212) 45
             (replace_class (\<lambda>c. c = 34) 34 (replace_class (\<lambda>c. c = 39) 39
               (filter (\<lambda>c. \<not> is_control c) s)))))"
  by (simp only: replace_chain_def insert_spaces_def)

lemma chars_replace_chain:
  assumes "c \<in> set (replace_chain s)"
  shows "\<not> is_control c \<and> \<not> (c = 8211 \<or> c = 8212) \<and> \<not> other_space c"
proof (cases "c = 32")
  case True
  then show ?thesis using space_32_facts by simp
next
  case False
  with assms set_insert_spaces show ?thesis
    unfolding replace_chain_eq by (intro chain_chars [of c s]) blast
qed

lemma normalized_replace_chain: "normalized (replace_chain s)"
proof -
  have "\<forall>c \<in> set (replace_chain s). \<not> is_control c \<and> \<not> (c = 8211 \<or> c = 8212) \<and> \<not> other_space c"
    using chars_replace_chain by blast
  moreover have "successively (\<lambda>a b. \<not> double_space a b) (replace_chain s)"
    unfolding replace_chain_eq
    by (rule no_double_space_insert_spaces) (rule successively_collapse_spaces)
  moreover have "successively (\<lambda>a b. \<not> (is_lower a \<and> is_upper b)) (replace_chain s)"
    unfolding replace_chain_eq by (rule separated_insert_spaces)
  moreover have "successively (\<lambda>a b. \<not> (is_digit a \<and> is_letter b)) (replace_chain s)"
    unfolding replace_chain_eq by (rule separated_insert_spaces)
  moreover have "successively (\<lambda>a b. \<not> (is_letter a \<and> is_digit b)) (replace_chain s)"
    unfolding replace_chain_eq by (rule separated_insert_spaces)
  ultimately show ?thesis
    unfolding normalized_def by (intro conjI)
qed

lemma replace_chain_normalized: "normalized s \<Longrightarrow> replace_chain s = s"
proof -
  assume n: "normalized s"
  then have 1: "filter (\<lambda>c. \<not> is_control c) s = s"
    by (simp add: normalized_def)
  have 2: "replace_class (\<lambda>c. c = 34) 34 (replace_class (\<lambda>c. c = 39) 39 s) = s"
    by (simp add: replace_class_same)
  from n have 4: "replace_class (\<lambda>c. c = 8211 \<or> c = 8212) 45 s = s"
    by (intro replace_class_id) (simp add: normalized_def)
  from n have 5: "collapse_spaces s = s"
    by (intro collapse_spaces_id) (simp_all add: normalized_def)
  from n have 6: "insert_space_between is_lower is_upper s = s"
    by (intro insert_space_between_id) (simp add: normalized_def)
  from n have 7: "insert_space_between is_digit is_letter s = s"
    by (intro insert_space_between_id) (simp add: normalized_def)
  from n have 8: "insert_space_between is_letter is_digit s = s"
    by (intro insert_space_between_id) (simp add: normalized_def)
  show ?thesis
    by (simp only: replace_chain_def 1 2 4 5 6 7 8)
qed

lemma normalized_trim: "normalized s \<Longrightarrow> normalized (trim s)"
  unfolding normalized_def using set_trim [of s]
  by (auto intro: successively_trim)

lemma normalized_no_newline: "normalized s \<Longrightarrow> 10 \<notin> set s"
  unfolding normalized_def using space_32_facts(8) by blast

text \<open>
  Claim C8. The normalizer is idempotent: its output is trimmed, free of control
  characters and long dashes, has single spaces as its only white space and has no
  lower/upper, digit/letter or letter/digit pair left to separate, and on such a string
  every step of the normalizer is the identity.
\<close>

theorem cleanOCRText_idempotent: "cleanOCRText (cleanOCRText x) = cleanOCRText x"
proof -
  let ?y = "trim (replace_chain x)"
  have 1: "cleanOCRText x = ?y"
    by (rule cleanOCRText_trim) (rule normalized_no_newline, rule normalized_replace_chain)
  have n: "normalized ?y"
    by (rule normalized_trim) (rule normalized_replace_chain)
  then have 2: "replace_chain ?y = ?y" by (rule replace_chain_normalized)
  have "cleanOCRText ?y = trim (replace_chain ?y)"
    by (rule cleanOCRText_trim) (simp only: 2, rule normalized_no_newline, rule n)
  also have "\<dots> = ?y" by (simp only: 2 trim_trim)
  finally show ?thesis by (simp only: 1)
qed

section \<open>Properties of the retry loop\<close>

lemmas fetch_defs = fetchWithRetry_def try_body_def response_ok_def delay_at_def delays_def

text \<open>A 5xx answer on attempts 1 and 2 and a success on attempt 3: the response is
  returned after exactly two backoff delays, 500 ms and 1000 ms.\<close>

lemma fetchWithRetry_500_500_ok:
  "fetchWithRetry (\<lambda>n. if n < 2 then Response 500 else Response 200) = (Inr 200, [500, 1000])"
  by (simp add: fetch_defs)

text \<open>Network errors on all three attempts: the third one is rethrown, after two delays.\<close>

lemma fetchWithRetry_network_exhausted:
  "fetchWithRetry (\<lambda>n. NetworkError) = (Inl NetworkFailure, [500, 1000])"
  by (simp add: fetch_defs)

text \<open>
  Claim C1. The claim says that a 4xx response fails the batch at once, with no backoff
  delay. The error thrown for a 4xx status is thrown inside the \<open>try\<close> block, so the
  \<open>catch\<close> clause of the same iteration swallows it unless the attempt is the last one:
  a service that answers 404 every time is called three times, with backoff delays of
  500 ms and 1000 ms, before the error surfaces.
\<close>

theorem fetchWithRetry_4xx_is_retried:
  "fetchWithRetry (\<lambda>n. Response 404) = (Inl (HttpError 404), [500, 1000])"
  by (simp add: fetch_defs)

section \<open>Properties of the materializer\<close>

lemma convert_loop_acc: "convert_loop rs acc = acc @ convert_loop rs []"
proof (induction rs arbitrary: acc)
  case Nil
  then show ?case by simp
next
  case (Cons r rs)
  show ?case
    using Cons [of "acc @ [range_event r]"] Cons [of "acc @ [single_event r]"]
      Cons [of "[range_event r]"] Cons [of "[single_event r]"] Cons [of acc]
    by simp
qed

lemma convert_Cons:
  "convertLineEventsToExtractedEvents (r # rs) =
     convertLineEventsToExtractedEvents [r] @ convertLineEventsToExtractedEvents rs"
  unfolding convertLineEventsToExtractedEvents_def
  using convert_loop_acc [of rs "[range_event r]"] convert_loop_acc [of rs "[single_event r]"]
  by simp

lemma convert_concat:
  "convertLineEventsToExtractedEvents rs =
     concat (map (\<lambda>r. convertLineEventsToExtractedEvents [r]) rs)"
proof (induction rs)
  case Nil
  then show ?case by (simp add: convertLineEventsToExtractedEvents_def)
next
  case (Cons r rs)
  then show ?case using convert_Cons [of r rs] by simp
qed

lemma convert_single:
  "convertLineEventsToExtractedEvents [r] =
     (if \<not> truthy (normalized_date r) \<and> date_text r = [] then []
      else if is_deferred_range r then [range_event r] else [single_event r])"
  by (simp add: convertLineEventsToExtractedEvents_def)

text \<open>
  Claim C6. Each result is materialized on its own, in order. A result with neither a
  normalized date nor raw date text yields no event; a deferred range result yields one
  event dated at the start of the range, with confidence 85 and the flags
  \<open>is_range_with_day = true\<close>, \<open>is_expanded_from_range = false\<close>; any other result with
  a normalized date yields one event on that date with confidence 90; a result with raw
  date text only yields one event whose date is that text, with confidence 70.
\<close>

theorem materializer_cases:
  "convertLineEventsToExtractedEvents rs =
     concat (map (\<lambda>r. convertLineEventsToExtractedEvents [r]) rs) \<and>
   (\<not> truthy (normalized_date r) \<and> date_text r = [] \<longrightarrow>
      convertLineEventsToExtractedEvents [r] = []) \<and>
   (is_deferred_range r \<longrightarrow>
      (\<exists>e md. convertLineEventsToExtractedEvents [r] = [e] \<and>
         normalized_date r = Some (event_date e) \<and> confidence e = 85 \<and>
         metadata e = Some md \<and> md_is_range_with_day md = Some True \<and>
         md_is_expanded_from_range md = Some False)) \<and>
   (truthy (normalized_date r) \<and> \<not> is_deferred_range r \<longrightarrow>
      (\<exists>e. convertLineEventsToExtractedEvents [r] = [e] \<and>
         normalized_date r = Some (event_date e) \<and> confidence e = 90)) \<and>
   (\<not> truthy (normalized_date r) \<and> date_text r \<noteq> [] \<longrightarrow>
      (\<exists>e. convertLineEventsToExtractedEvents [r] = [e] \<and>
         event_date e = date_text r \<and> confidence e = 70))"
proof (intro conjI impI)
  show "convertLineEventsToExtractedEvents rs =
     concat (map (\<lambda>r. convertLineEventsToExtractedEvents [r]) rs)"
    by (rule convert_concat)
next
  assume "\<not> truthy (normalized_date r) \<and> date_text r = []"
  then show "convertLineEventsToExtractedEvents [r] = []"
    by (simp add: convert_single)
next
  assume d: "is_deferred_range r"
  then obtain start where s: "normalized_date r = Some start" and "start \<noteq> []"
    by (auto simp: is_deferred_range_def truthy_def split: option.splits)
  from d have t: "truthy (normalized_date r)" by (simp add: is_deferred_range_def)
  have c: "convertLineEventsToExtractedEvents [r] = [range_event r]"
    unfolding convert_single using d t by simp
  have "normalized_date r = Some (event_date (range_event r)) \<and> confidence (range_event r) = 85 \<and>
      (\<exists>md. metadata (range_event r) = Some md \<and> md_is_range_with_day md = Some True \<and>
         md_is_expanded_from_range md = Some False)"
    using s by (simp add: range_event_def)
  with c show "\<exists>e md. convertLineEventsToExtractedEvents [r] = [e] \<and>
         normalized_date r = Some (event_date e) \<and> confidence e = 85 \<and>
         metadata e = Some md \<and> md_is_range_with_day md = Some True \<and>
         md_is_expanded_from_range md = Some False"
    by blast
next
  assume a: "truthy (normalized_date r) \<and> \<not> is_deferred_range r"
  then obtain d where s: "normalized_date r = Some d" and "d \<noteq> []"
    by (auto simp: truthy_def split: option.splits)
  have c: "convertLineEventsToExtractedEvents [r] = [single_event r]"
    unfolding convert_single using a by simp
  have "normalized_date r = Some (event_date (single_event r)) \<and> confidence (single_event r) = 90"
    using s \<open>d \<noteq> []\<close> by (simp add: single_event_def or_else_def truthy_def)
  with c show "\<exists>e. convertLineEventsToExtractedEvents [r] = [e] \<and>
         normalized_date r = Some (event_date e) \<and> confidence e = 90"
    by blast
next
  assume a: "\<not> truthy (normalized_date r) \<and> date_text r \<noteq> []"
  then have nd: "\<not> is_deferred_range r" by (simp add: is_deferred_range_def)
  have c: "convertLineEventsToExtractedEvents [r] = [single_event r]"
    unfolding convert_single using a nd by simp
  have "event_date (single_event r) = date_text r \<and> confidence (single_event r) = 70"
    using a by (auto simp: single_event_def or_else_def truthy_def split: option.splits)
  with c show "\<exists>e. convertLineEventsToExtractedEvents [r] = [e] \<and>
         event_date e = date_text r \<and> confidence e = 70"
    by blast
qed

theorem materializer_cases_witness:
  "convertLineEventsToExtractedEvents
     [monday_range_result\<lparr>normalized_date := None, date_text := []\<rparr>] = [] \<and>
   is_deferred_range monday_range_result \<and>
   map confidence (convertLineEventsToExtractedEvents [monday_range_result]) = [85] \<and>
   map event_date (convertLineEventsToExtractedEvents [monday_range_result]) =
     [js ''2025-11-03''] \<and>
   \<not> is_deferred_range (monday_range_result\<lparr>is_range_with_day := Some False\<rparr>) \<and>
   map confidence (convertLineEventsToExtractedEvents
     [monday_range_result\<lparr>is_range_with_day := Some False\<rparr>]) = [90] \<and>
   map event_date (convertLineEventsToExtractedEvents
     [monday_range_result\<lparr>is_range_with_day := Some False\<rparr>]) = [js ''2025-11-03''] \<and>
   map confidence (convertLineEventsToExtractedEvents
     [monday_range_result\<lparr>normalized_date := None\<rparr>]) = [70] \<and>
   map event_date (convertLineEventsToExtractedEvents
     [monday_range_result\<lparr>normalized_date := None\<rparr>]) = [js ''Nov 3 to Nov 17'']"
  using
    materializer_cases [of "[]" "monday_range_result\<lparr>normalized_date := None, date_text := []\<rparr>"]
    materializer_cases [of "[]" monday_range_result]
    materializer_cases [of "[]" "monday_range_result\<lparr>is_range_with_day := Some False\<rparr>"]
    materializer_cases [of "[]" "monday_range_result\<lparr>normalized_date := None\<rparr>"]
  by (auto simp: monday_range_result_def is_deferred_range_def truthy_def truthy_flag_def js_def)

section \<open>Properties of the recurrence expander\<close>

declare range_loop.simps [simp del]

subsection \<open>Weekday tokens\<close>

lemmas parse_days_defs = parse_days_def dayMap_def toLowerCase_def trim_def js_def
  List.map_filter_def char_class_defs

text \<open>The table: full names, three-letter abbreviations and the irregular ones.\<close>

lemma dayMap_table:
  "dayMap (js ''sunday'') = Some (DayNumber 0)" "dayMap (js ''sun'') = Some (DayNumber 0)"
  "dayMap (js ''monday'') = Some (DayNumber 1)" "dayMap (js ''mon'') = Some (DayNumber 1)"
  "dayMap (js ''tuesday'') = Some (DayNumber 2)" "dayMap (js ''tue'') = Some (DayNumber 2)"
  "dayMap (js ''tues'') = Some (DayNumber 2)"
  "dayMap (js ''wednesday'') = Some (DayNumber 3)" "dayMap (js ''wed'') = Some (DayNumber 3)"
  "dayMap (js ''thursday'') = Some (DayNumber 4)" "dayMap (js ''thu'') = Some (DayNumber 4)"
  "dayMap (js ''thur'') = Some (DayNumber 4)" "dayMap (js ''thurs'') = Some (DayNumber 4)"
  "dayMap (js ''friday'') = Some (DayNumber 5)" "dayMap (js ''fri'') = Some (DayNumber 5)"
  "dayMap (js ''saturday'') = Some (DayNumber 6)" "dayMap (js ''sat'') = Some (DayNumber 6)"
  by (simp_all add: dayMap_def js_def)

lemma parse_days_Monday: "parse_days (js ''Monday'') = [DayNumber 1]"
  by (simp add: parse_days_defs)

lemma parse_days_weekend: "parse_days (js ''Saturday,Sunday'') = [DayNumber 6, DayNumber 0]"
  by (simp add: parse_days_defs)

lemma parse_days_irregular:
  "parse_days (js ''Tues, THURS ,wed'') = [DayNumber 2, DayNumber 4, DayNumber 3]"
  by (simp add: parse_days_defs)

lemma parse_days_unrecognized: "parse_days (js ''Funday,Mon/Wed'') = []"
  by (simp add: parse_days_defs)

lemma parse_days_empty: "parse_days [] = []"
  by (simp add: parse_days_defs)

subsection \<open>The walk over the days\<close>

text \<open>From midnight UTC of day \<open>d1\<close> to midnight UTC of day \<open>d2\<close> the loop visits every
  day in between, both ends included, in ascending order, and pushes the UTC date of
  each day whose local weekday is in the list.\<close>

lemma range_loop_days:
  "range_loop tz daysOfWeek build (d1 * ms_per_day) (d2 * ms_per_day) acc =
     acc @ map (\<lambda>d. build (toISODate (d * ms_per_day)))
             (filter (\<lambda>d. DayNumber (getDay tz (d * ms_per_day)) \<in> set daysOfWeek) [d1..d2])"
proof (induction "nat (d2 - d1 + 1)" arbitrary: d1 acc)
  case 0
  then have "d2 < d1" by simp
  then have "\<not> d1 * ms_per_day \<le> d2 * ms_per_day" by (simp add: ms_per_day_def)
  moreover from \<open>d2 < d1\<close> have "[d1..d2] = []" by simp
  ultimately show ?case
    by (subst range_loop.simps) simp
next
  case (Suc n)
  then have le: "d1 \<le> d2" by simp
  then have c: "d1 * ms_per_day \<le> d2 * ms_per_day" by (simp add: ms_per_day_def)
  have n: "n = nat (d2 - (d1 + 1) + 1)" using Suc(2) by simp
  have nx: "next_local_day (d1 * ms_per_day) = (d1 + 1) * ms_per_day"
    by (simp add: next_local_day_def algebra_simps)
  have up: "[d1..d2] = d1 # [d1 + 1..d2]" using le by (rule upto_rec1)
  show ?case
    by (subst range_loop.simps) (simp only: c if_True nx Suc(1) [OF n] up, simp)
qed

lemma Date_parse_whole_days:
  "Date_parse s = Some t \<Longrightarrow> t = (t div ms_per_day) * ms_per_day"
  by (auto simp: Date_parse_def ms_per_day_def split: if_splits option.splits)

lemma expand_range_days:
  assumes "Date_parse startDateStr = Some (d1 * ms_per_day)"
    and "Date_parse endDateStr = Some (d2 * ms_per_day)"
  shows "expand_range tz build startDateStr endDateStr dayOfWeekStr =
     map (\<lambda>d. build (toISODate (d * ms_per_day)))
       (filter (\<lambda>d. DayNumber (getDay tz (d * ms_per_day)) \<in> set (parse_days dayOfWeekStr))
          [d1..d2])"
proof (cases "parse_days dayOfWeekStr = []")
  case True
  then show ?thesis by (simp add: expand_range_def)
next
  case False
  then show ?thesis
    by (simp add: expand_range_def assms range_loop_days)
qed

text \<open>An empty weekday list, or one without a weekday number, gives no date and no
  error.\<close>

lemma expand_range_no_weekday:
  "\<forall>n. DayNumber n \<notin> set (parse_days dayOfWeekStr) \<Longrightarrow>
     expand_range tz build startDateStr endDateStr dayOfWeekStr = []"
proof -
  assume none: "\<forall>n. DayNumber n \<notin> set (parse_days dayOfWeekStr)"
  have "range_loop tz (parse_days dayOfWeekStr) build t1 t2 acc = acc" for t1 t2 and acc :: "'a list"
  proof (induction tz "parse_days dayOfWeekStr" build t1 t2 acc rule: range_loop.induct)
    case (1 tz build currentDate endDate expandedEvents)
    then show ?case using none
      by (subst range_loop.simps) simp
  qed
  then show ?thesis
    by (simp add: expand_range_def Let_def split: option.splits)
qed

subsection \<open>Hosts at UTC or east of it\<close>

lemma getDay_east_of_utc:
  "0 \<le> tz \<Longrightarrow> tz < 1440 \<Longrightarrow> getDay tz (d * ms_per_day) = nat ((d + 4) mod 7)"
proof -
  assume "0 \<le> tz" "tz < 1440"
  then have "(tz * 60000 + d * 86400000) div 86400000 = d"
    by (simp add: div_pos_pos_trivial)
  then show ?thesis
    by (simp add: getDay_def ms_per_day_def add.commute)
qed

text \<open>
  On a host whose zone is UTC or a fixed offset east of it the expander does what the
  specification says: it emits, in ascending order, the dates of exactly those days
  from the start date to the end date, both included, whose weekday is in the set.
\<close>

lemma expand_range_east_of_utc:
  assumes "0 \<le> tz" and "tz < 1440"
    and "Date_parse startDateStr = Some t1" and "Date_parse endDateStr = Some t2"
  shows "expand_range tz build startDateStr endDateStr dayOfWeekStr =
     map (\<lambda>d. build (toISODate (d * ms_per_day)))
       (filter (\<lambda>d. DayNumber (nat ((d + 4) mod 7)) \<in> set (parse_days dayOfWeekStr))
          [t1 div ms_per_day..t2 div ms_per_day])"
proof -
  have 1: "Date_parse startDateStr = Some ((t1 div ms_per_day) * ms_per_day)"
    using assms(3) Date_parse_whole_days [OF assms(3)] by simp
  have 2: "Date_parse endDateStr = Some ((t2 div ms_per_day) * ms_per_day)"
    using assms(4) Date_parse_whole_days [OF assms(4)] by simp
  show ?thesis
    by (simp only: expand_range_days [OF 1 2] getDay_east_of_utc [OF assms(1,2)])
qed

subsection \<open>November 2025\<close>

lemma pad_number_2: "pad_number 2 n = [48 + n div 10 mod 10, 48 + n mod 10]"
  by (simp add: numeral_2_eq_2)

lemma pad_number_4:
  "pad_number 4 n =
     [48 + n div 10 div 10 div 10 mod 10, 48 + n div 10 div 10 mod 10, 48 + n div 10 mod 10,
      48 + n mod 10]"
proof -
  have "(4::nat) = Suc (Suc (Suc (Suc 0)))" by simp
  then show ?thesis by (simp only: pad_number.simps append.simps)
qed

lemma toISODate_days:
  "civil_from_days d = (y, m, dd) \<Longrightarrow> 0 \<le> y \<Longrightarrow> y \<le> 9999 \<Longrightarrow>
     toISODate (d * ms_per_day) =
       pad_number 4 (nat y) @ 45 # pad_number 2 (nat m) @ 45 # pad_number 2 (nat dd)"
  by (simp add: toISODate_def ms_per_day_def)

lemma getDay_days:
  "getDay tz (d * ms_per_day) = nat (((d * 86400000 + tz * 60000) div 86400000 + 4) mod 7)"
  by (simp add: getDay_def ms_per_day_def)

lemmas Date_parse_defs = Date_parse_def days_from_civil_def days_in_month_def is_leap_year_def
  ms_per_day_def js_def is_digit_def Let_def

lemma Date_parse_november_2025:
  "Date_parse (js ''2025-11-01'') = Some (20393 * ms_per_day)"
  "Date_parse (js ''2025-11-03'') = Some (20395 * ms_per_day)"
  "Date_parse (js ''2025-11-17'') = Some (20409 * ms_per_day)"
  "Date_parse (js ''2025-11-30'') = Some (20422 * ms_per_day)"
  by (simp_all add: Date_parse_defs)

lemma civil_november_2025:
  "civil_from_days 20393 = (2025, 11, 1)" "civil_from_days 20394 = (2025, 11, 2)"
  "civil_from_days 20395 = (2025, 11, 3)" "civil_from_days 20396 = (2025, 11, 4)"
  "civil_from_days 20400 = (2025, 11, 8)" "civil_from_days 20401 = (2025, 11, 9)"
  "civil_from_days 20402 = (2025, 11, 10)" "civil_from_days 20403 = (2025, 11, 11)"
  "civil_from_days 20407 = (2025, 11, 15)" "civil_from_days 20408 = (2025, 11, 16)"
  "civil_from_days 20409 = (2025, 11, 17)" "civil_from_days 20414 = (2025, 11, 22)"
  "civil_from_days 20415 = (2025, 11, 23)" "civil_from_days 20421 = (2025, 11, 29)"
  "civil_from_days 20422 = (2025, 11, 30)"
  unfolding civil_from_days_def Let_def by simp_all

lemma toISODate_november_2025:
  "toISODate (20393 * ms_per_day) = js ''2025-11-01''"
  "toISODate (20394 * ms_per_day) = js ''2025-11-02''"
  "toISODate (20395 * ms_per_day) = js ''2025-11-03''"
  "toISODate (20396 * ms_per_day) = js ''2025-11-04''"
  "toISODate (20400 * ms_per_day) = js ''2025-11-08''"
  "toISODate (20401 * ms_per_day) = js ''2025-11-09''"
  "toISODate (20402 * ms_per_day) = js ''2025-11-10''"
  "toISODate (20403 * ms_per_day) = js ''2025-11-11''"
  "toISODate (20407 * ms_per_day) = js ''2025-11-15''"
  "toISODate (20408 * ms_per_day) = js ''2025-11-16''"
  "toISODate (20409 * ms_per_day) = js ''2025-11-17''"
  "toISODate (20414 * ms_per_day) = js ''2025-11-22''"
  "toISODate (20415 * ms_per_day) = js ''2025-11-23''"
  "toISODate (20421 * ms_per_day) = js ''2025-11-29''"
  "toISODate (20422 * ms_per_day) = js ''2025-11-30''"
  by (simp_all add: toISODate_days [OF civil_november_2025(1)]
      toISODate_days [OF civil_november_2025(2)] toISODate_days [OF civil_november_2025(3)]
      toISODate_days [OF civil_november_2025(4)] toISODate_days [OF civil_november_2025(5)]
      toISODate_days [OF civil_november_2025(6)] toISODate_days [OF civil_november_2025(7)]
      toISODate_days [OF civil_november_2025(8)] toISODate_days [OF civil_november_2025(9)]
      toISODate_days [OF civil_november_2025(10)] toISODate_days [OF civil_november_2025(11)]
      toISODate_days [OF civil_november_2025(12)] toISODate_days [OF civil_november_2025(13)]
      toISODate_days [OF civil_november_2025(14)] toISODate_days [OF civil_november_2025(15)]
      pad_number_2 pad_number_4 js_def)

text \<open>On a host at UTC the two examples of the specification come out as it says.\<close>

lemma expand_monday_utc:
  "expand_range 0 build (js ''2025-11-03'') (js ''2025-11-03'') (js ''Monday'') =
     [build (js ''2025-11-03'')]"
  by (simp add: expand_range_days [OF Date_parse_november_2025(2) Date_parse_november_2025(2)]
      parse_days_Monday getDay_days toISODate_november_2025)

lemma expand_mondays_utc:
  "expand_range 0 build (js ''2025-11-03'') (js ''2025-11-17'') (js ''Monday'') =
     [build (js ''2025-11-03''), build (js ''2025-11-10''), build (js ''2025-11-17'')]"
  by (simp add: expand_range_days [OF Date_parse_november_2025(2) Date_parse_november_2025(3)]
      parse_days_Monday getDay_days toISODate_november_2025)

lemma expand_weekends_utc:
  "expand_range 0 build (js ''2025-11-01'') (js ''2025-11-30'') (js ''Saturday,Sunday'') =
     map build
       [js ''2025-11-01'', js ''2025-11-02'', js ''2025-11-08'', js ''2025-11-09'',
        js ''2025-11-15'', js ''2025-11-16'', js ''2025-11-22'', js ''2025-11-23'',
        js ''2025-11-29'', js ''2025-11-30'']"
  by (simp add: expand_range_days [OF Date_parse_november_2025(1) Date_parse_november_2025(4)]
      parse_days_weekend getDay_days toISODate_november_2025)

subsection \<open>Hosts west of UTC\<close>

text \<open>Five hours west of UTC (New York in November) the Mondays from 2025-11-03 to
  2025-11-17 come out as two Tuesdays.\<close>

lemma expand_mondays_west_of_utc:
  "expand_range (- 300) build (js ''2025-11-03'') (js ''2025-11-17'') (js ''Monday'') =
     [build (js ''2025-11-04''), build (js ''2025-11-11'')]"
  by (simp add: expand_range_days [OF Date_parse_november_2025(2) Date_parse_november_2025(3)]
      parse_days_Monday getDay_days toISODate_november_2025)

text \<open>
  Claim C2. The claim says that expanding 2025-11-03 to 2025-11-03 with Monday returns
  exactly that date. The start date is parsed as midnight UTC, but \<open>getDay\<close> reads the
  weekday in the local time of the host: five hours west of UTC that instant is still
  Sunday evening, the one day of the range does not match, and the expansion is empty.
\<close>

theorem expandRangeWithDays_west_of_utc:
  "expandRangeWithDays (- 300) extractedEvent (js ''2025-11-03'') (js ''2025-11-03'')
     (js ''Monday'') = []"
  by (simp add: expandRangeWithDays_def
      expand_range_days [OF Date_parse_november_2025(2) Date_parse_november_2025(2)]
      parse_days_Monday getDay_days)

section \<open>Properties of the import\<close>

lemma js_Nil_iff [simp]: "js s = [] \<longleftrightarrow> s = []"
  by (simp add: js_def)

lemmas materializer_defs = convertLineEventsToExtractedEvents_def is_deferred_range_def
  range_event_def single_event_def truthy_def truthy_flag_def or_else_def or_null_def

lemmas import_defs = importEventToCalendar_def select_single_def insert_calendar_events_def
  markEventAsImported_def needs_expansion_def string_of_def expanded_calendar_event_def
  single_calendar_event_def expandRangeWithDays_def empty_metadata_def metadata_of_def Let_def

lemma staged_rows:
  "extracted_events staged_db =
     [stored_row (js ''event-1'') (js ''doc-1'') (js ''user-1'') (range_event monday_range_result)]"
  by (simp add: staged_db_def materializer_defs monday_range_result_def)

subsection \<open>The round trip of a deferred range\<close>

text \<open>
  On a host at UTC the import of the staged Monday range inserts exactly three calendar
  events, dated 2025-11-03, 2025-11-10 and 2025-11-17, each with the title of the staged
  event, its (absent) times and location, its category and priority, the source
  \<open>extracted\<close> and the id of the staged event as \<open>source_id\<close>; the staged row is marked as
  imported by one update, after the one insert.
\<close>

lemma import_utc:
  "importEventToCalendar (host_at 0) staged_db (js ''event-1'') =
     (Inr (ExpandedImport
        (map (\<lambda>d. \<lparr>cal_user_id = js ''user-1'', cal_title = js ''Team Meeting'',
                     cal_description = Some (js ''Team Meeting''), cal_event_date = d,
                     cal_start_time = None, cal_end_time = None, cal_location = None,
                     cal_category = js ''other'', cal_priority = js ''medium'',
                     cal_source = js ''extracted'', cal_source_id = js ''event-1'',
                     cal_is_completed = False\<rparr>)
           [js ''2025-11-03'', js ''2025-11-10'', js ''2025-11-17''])),
      \<lparr>extracted_events =
         [(stored_row (js ''event-1'') (js ''doc-1'') (js ''user-1'') (range_event monday_range_result))
            \<lparr>is_imported := True\<rparr>],
       calendar_events =
         map (\<lambda>d. \<lparr>cal_user_id = js ''user-1'', cal_title = js ''Team Meeting'',
                     cal_description = Some (js ''Team Meeting''), cal_event_date = d,
                     cal_start_time = None, cal_end_time = None, cal_location = None,
                     cal_category = js ''other'', cal_priority = js ''medium'',
                     cal_source = js ''extracted'', cal_source_id = js ''event-1'',
                     cal_is_completed = False\<rparr>)
           [js ''2025-11-03'', js ''2025-11-10'', js ''2025-11-17''],
       writes =
         [InsertCalendarEvents
            (map (\<lambda>d. \<lparr>cal_user_id = js ''user-1'', cal_title = js ''Team Meeting'',
                     cal_description = Some (js ''Team Meeting''), cal_event_date = d,
                     cal_start_time = None, cal_end_time = None, cal_location = None,
                     cal_category = js ''other'', cal_priority = js ''medium'',
                     cal_source = js ''extracted'', cal_source_id = js ''event-1'',
                     cal_is_completed = False\<rparr>)
              [js ''2025-11-03'', js ''2025-11-10'', js ''2025-11-17'']),
          UpdateIsImported (js ''event-1'')]\<rparr>)"
  by (simp add: import_defs staged_db_def materializer_defs monday_range_result_def
      stored_row_def host_at_def expand_mondays_utc)

text \<open>
  Claim C3. The claim says that this import inserts three events dated 2025-11-03,
  2025-11-10 and 2025-11-17. The expander reads the weekday in the local time of the
  host while the dates are parsed and printed in UTC: five hours west of UTC the same
  import inserts two events, dated 2025-11-04 and 2025-11-11, which are Tuesdays.
\<close>

theorem import_west_of_utc:
  "map cal_event_date
     (calendar_events (snd (importEventToCalendar (host_at (- 300)) staged_db (js ''event-1'')))) =
     [js ''2025-11-04'', js ''2025-11-11'']"
  by (simp add: import_defs staged_db_def materializer_defs monday_range_result_def
      stored_row_def host_at_def expand_mondays_west_of_utc)

subsection \<open>Range-flagged events are expanded\<close>






subsection \<open>A failing insert\<close>

text \<open>
  Claim C10. If the insert into \<open>calendar_events\<close> fails, the import throws the error of
  its branch before \<open>markEventAsImported\<close> runs: the database is as it was, with the
  \<open>is_imported\<close> flag of the staged row unchanged and no write logged.
\<close>

theorem import_insert_failure:
  assumes "insert_fails h" and "select_single h db eventId = Some row"
  shows "importEventToCalendar h db eventId =
           (Inl (if needs_expansion (metadata_of row) then FailedToImportExpandedEvents
                 else FailedToImportEvent), db)"
  using assms
  by (simp add: importEventToCalendar_def Let_def insert_calendar_events_def)

theorem import_insert_failure_witness:
  "insert_fails ((host_at 0)\<lparr>insert_fails := True\<rparr>) \<and>
   select_single ((host_at 0)\<lparr>insert_fails := True\<rparr>) staged_db (js ''event-1'') =
     Some (stored_row (js ''event-1'') (js ''doc-1'') (js ''user-1'')
             (range_event monday_range_result)) \<and>
   importEventToCalendar ((host_at 0)\<lparr>insert_fails := True\<rparr>) staged_db (js ''event-1'') =
     (Inl FailedToImportExpandedEvents, staged_db) \<and>
   map is_imported (extracted_events staged_db) = [False]"
proof -
  let ?h = "(host_at 0)\<lparr>insert_fails := True\<rparr>"
  let ?row = "stored_row (js ''event-1'') (js ''doc-1'') (js ''user-1'')
                (range_event monday_range_result)"
  have 1: "insert_fails ?h" by simp
  have 2: "select_single ?h staged_db (js ''event-1'') = Some ?row"
    by (simp add: select_single_def host_at_def staged_rows stored_row_def)
  have 3: "needs_expansion (metadata_of ?row)"
    by (simp add: needs_expansion_def metadata_of_def stored_row_def range_event_def
        monday_range_result_def truthy_def truthy_flag_def)
  have 4: "map is_imported (extracted_events staged_db) = [False]"
    by (simp add: staged_rows stored_row_def)
  from import_insert_failure [OF 1 2] 1 2 3 4 show ?thesis by simp
qed

end
